theory Spec2Isabelle
  imports Complex_Main
begin

section \<open>Model orchestration (services/inference-service/model_orchestration.py)\<close>

text \<open>
  Python floats are modelled as the real numbers: sums, products and quotients are exact
  and rounding is not modelled. Exceptions are values of the type \<open>py_error\<close>; a
  function that may raise returns \<open>py_error + 'a\<close>, and a method that may raise after
  it has already changed the object returns the exception (if any) beside the new state.
\<close>

datatype py_error =
    ValueError string
  | KeyError string
  | TypeError
  | AttributeError

datatype ModelType =
    RANDOM_FOREST | GRADIENT_BOOSTING | NEURAL_NETWORK | ISOLATION_FOREST | LSTM

fun ModelType_value :: "ModelType \<Rightarrow> string" where
  "ModelType_value RANDOM_FOREST = ''random_forest''"
| "ModelType_value GRADIENT_BOOSTING = ''gradient_boosting''"
| "ModelType_value NEURAL_NETWORK = ''neural_network''"
| "ModelType_value ISOLATION_FOREST = ''isolation_forest''"
| "ModelType_value LSTM = ''lstm''"

record ModelMetadata =
  model_id :: string
  model_type :: ModelType
  version :: string
  accuracy :: real
  precision :: real
  recall :: real
  f1_score :: real
  last_trained :: string
  is_active :: bool

text \<open>
  The fields of \<open>PredictionResult\<close> carry the prefix \<open>pr_\<close> where the name is a
  field of \<open>ModelMetadata\<close> already. The \<open>explanation\<close> dictionary is a constant
  table beside the model type; nothing reads it, and it is not carried.
\<close>

record PredictionResult =
  pr_model_id :: string
  pr_model_type :: ModelType
  fraud_probability :: real
  confidence_score :: real

text \<open>The entries of \<open>individual_predictions\<close> and the dictionary \<open>ensemble_predict\<close> returns.\<close>

record IndividualPrediction =
  ip_model_id :: string
  ip_model_type :: string
  ip_fraud_probability :: real
  ip_confidence_score :: real

record EnsembleDetails =
  ensemble_fraud_probability :: real
  individual_predictions :: "IndividualPrediction list"
  model_count :: nat

record ModelOrchestrator =
  models :: "string \<rightharpoonup> ModelMetadata"
  model_weights :: "string \<rightharpoonup> real"
  active_models :: "string list"

definition init_orchestrator :: ModelOrchestrator where
  "init_orchestrator = \<lparr>models = Map.empty, model_weights = Map.empty, active_models = []\<rparr>"

definition register_model :: "ModelOrchestrator \<Rightarrow> ModelMetadata \<Rightarrow> real \<Rightarrow> ModelOrchestrator" where
  "register_model s metadata weight =
     (let s1 = s\<lparr>models := (models s)(model_id metadata \<mapsto> metadata)\<rparr>;
          s2 = s1\<lparr>model_weights := (model_weights s1)(model_id metadata \<mapsto> weight)\<rparr>
      in if is_active metadata
         then s2\<lparr>active_models := active_models s2 @ [model_id metadata]\<rparr>
         else s2)"

definition get_model_metadata :: "ModelOrchestrator \<Rightarrow> string \<Rightarrow> ModelMetadata option" where
  "get_model_metadata s mid = models s mid"

text \<open>\<open>self.models[mid]\<close> raises \<open>KeyError\<close> on an id that is not a key.\<close>

fun list_active_models_from :: "ModelOrchestrator \<Rightarrow> string list \<Rightarrow> py_error + ModelMetadata list" where
  "list_active_models_from s [] = Inr []"
| "list_active_models_from s (mid # rest) =
     (case models s mid of
        None \<Rightarrow> Inl (KeyError mid)
      | Some md \<Rightarrow>
          (case list_active_models_from s rest of
             Inl e \<Rightarrow> Inl e
           | Inr mds \<Rightarrow> Inr (md # mds)))"

definition list_active_models :: "ModelOrchestrator \<Rightarrow> py_error + ModelMetadata list" where
  "list_active_models s = list_active_models_from s (active_models s)"

text \<open>
  \<open>_predict_with_model\<close> draws the probability from \<open>np.random.random()\<close>. The
  argument \<open>r\<close> is the value that call returns; the feature vector is never read.
\<close>

definition predict_with_model :: "ModelOrchestrator \<Rightarrow> string \<Rightarrow> real \<Rightarrow> py_error + PredictionResult" where
  "predict_with_model s mid r =
     (case models s mid of
        None \<Rightarrow> Inl (KeyError mid)
      | Some metadata \<Rightarrow>
          Inr \<lparr>pr_model_id = mid, pr_model_type = model_type metadata,
               fraud_probability = r, confidence_score = accuracy metadata\<rparr>)"

text \<open>
  The loop of \<open>ensemble_predict\<close> over \<open>self.active_models\<close>, with its three
  accumulators \<open>predictions\<close>, \<open>weighted_sum\<close> and \<open>total_weight\<close>. \<open>rnd k\<close> is
  the value of the \<open>k\<close>-th call of \<open>np.random.random()\<close> since the prediction began.
\<close>

fun ensemble_loop ::
  "ModelOrchestrator \<Rightarrow> (nat \<Rightarrow> real) \<Rightarrow> string list \<Rightarrow> nat
     \<Rightarrow> PredictionResult list \<times> real \<times> real
     \<Rightarrow> py_error + (PredictionResult list \<times> real \<times> real)" where
  "ensemble_loop s rnd [] k acc = Inr acc"
| "ensemble_loop s rnd (mid # rest) k (predictions, weighted_sum, total_weight) =
     (case predict_with_model s mid (rnd k) of
        Inl e \<Rightarrow> Inl e
      | Inr prediction \<Rightarrow>
          (case model_weights s mid of
             None \<Rightarrow> Inl (KeyError mid)
           | Some weight \<Rightarrow>
               ensemble_loop s rnd rest (Suc k)
                 (predictions @ [prediction],
                  weighted_sum + fraud_probability prediction * weight,
                  total_weight + weight)))"

definition individual_prediction :: "PredictionResult \<Rightarrow> IndividualPrediction" where
  "individual_prediction p =
     \<lparr>ip_model_id = pr_model_id p, ip_model_type = ModelType_value (pr_model_type p),
      ip_fraud_probability = fraud_probability p, ip_confidence_score = confidence_score p\<rparr>"

definition ensemble_predict ::
  "ModelOrchestrator \<Rightarrow> (nat \<Rightarrow> real) \<Rightarrow> py_error + (real \<times> EnsembleDetails)" where
  "ensemble_predict s rnd =
     (if active_models s = []
      then Inl (ValueError ''No active models available for prediction'')
      else
        (case ensemble_loop s rnd (active_models s) 0 ([], 0, 0) of
           Inl e \<Rightarrow> Inl e
         | Inr (predictions, weighted_sum, total_weight) \<Rightarrow>
             (let ensemble_probability =
                    (if total_weight > 0 then weighted_sum / total_weight else 0)
              in Inr (ensemble_probability,
                      \<lparr>ensemble_fraud_probability = ensemble_probability,
                       individual_predictions = map individual_prediction predictions,
                       model_count = length predictions\<rparr>))))"

text \<open>
  \<open>weights\<close> is a dictionary; its items are visited in order, which the association
  list keeps.
\<close>

fun update_model_weights :: "ModelOrchestrator \<Rightarrow> (string \<times> real) list \<Rightarrow> ModelOrchestrator" where
  "update_model_weights s [] = s"
| "update_model_weights s ((mid, weight) # rest) =
     update_model_weights
       (if models s mid \<noteq> None
        then s\<lparr>model_weights := (model_weights s)(mid \<mapsto> weight)\<rparr>
        else s)
       rest"

text \<open>
  \<open>list.remove\<close> deletes the first occurrence only. The list is changed before
  \<open>self.models[model_id]\<close> is read, so a \<open>KeyError\<close> there leaves the shorter list.
\<close>

definition deactivate_model :: "ModelOrchestrator \<Rightarrow> string \<Rightarrow> py_error option \<times> ModelOrchestrator" where
  "deactivate_model s mid =
     (if mid \<in> set (active_models s)
      then
        (let s1 = s\<lparr>active_models := remove1 mid (active_models s)\<rparr>
         in case models s1 mid of
              None \<Rightarrow> (Some (KeyError mid), s1)
            | Some metadata \<Rightarrow>
                (None, s1\<lparr>models := (models s1)(mid \<mapsto> metadata\<lparr>is_active := False\<rparr>)\<rparr>))
      else (None, s))"

definition activate_model :: "ModelOrchestrator \<Rightarrow> string \<Rightarrow> ModelOrchestrator" where
  "activate_model s mid =
     (case models s mid of
        None \<Rightarrow> s
      | Some metadata \<Rightarrow>
          if mid \<notin> set (active_models s)
          then (let s1 = s\<lparr>active_models := active_models s @ [mid]\<rparr>
                in s1\<lparr>models := (models s1)(mid \<mapsto> metadata\<lparr>is_active := True\<rparr>)\<rparr>)
          else s)"

text \<open>
  The administrative calls, and the state after a sequence of them on a fresh
  orchestrator. An exception of \<open>deactivate_model\<close> ends that call only; the object
  keeps the state the call left.
\<close>

datatype admin_op =
    Register ModelMetadata real
  | Activate string
  | Deactivate string
  | UpdateWeights "(string \<times> real) list"

fun apply_op :: "ModelOrchestrator \<Rightarrow> admin_op \<Rightarrow> ModelOrchestrator" where
  "apply_op s (Register metadata weight) = register_model s metadata weight"
| "apply_op s (Activate mid) = activate_model s mid"
| "apply_op s (Deactivate mid) = snd (deactivate_model s mid)"
| "apply_op s (UpdateWeights weights) = update_model_weights s weights"

definition run_ops :: "admin_op list \<Rightarrow> ModelOrchestrator" where
  "run_ops ops = foldl apply_op init_orchestrator ops"

section \<open>Inference pipeline (services/inference-service/inference_pipeline.py)\<close>

record TransactionFeatures =
  transaction_id :: string
  transaction_amount :: real
  merchant_id :: string
  merchant_category :: string
  user_id :: string
  user_location :: string
  transaction_time :: string
  device_fingerprint :: string
  ip_address :: string
  card_last_four :: string

text \<open>
  The fields \<open>transaction_id\<close> and \<open>fraud_probability\<close> of the result carry the
  prefix \<open>res_\<close>, since the names are fields of other records.
\<close>

record FraudDetectionResult =
  res_transaction_id :: string
  res_fraud_probability :: real
  risk_score :: real
  is_flagged :: bool
  confidence :: real
  model_predictions :: EnsembleDetails
  processing_time_ms :: real
  timestamp :: string
  recommendation :: string

record InferencePipeline =
  orchestrator :: ModelOrchestrator
  fraud_threshold :: real
  risk_score_threshold :: real
  inference_count :: nat
  total_inference_time :: real

definition InferencePipeline_init :: "real \<Rightarrow> real \<Rightarrow> InferencePipeline" where
  "InferencePipeline_init fraud_thr risk_thr =
     \<lparr>orchestrator = init_orchestrator, fraud_threshold = fraud_thr,
      risk_score_threshold = risk_thr, inference_count = 0, total_inference_time = 0\<rparr>"

text \<open>The pipeline with the default arguments of \<open>__init__\<close>, as the service creates it.\<close>

definition default_pipeline :: InferencePipeline where
  "default_pipeline = InferencePipeline_init 0.5 70"

definition rf_v1 :: ModelMetadata where
  "rf_v1 = \<lparr>model_id = ''rf_v1'', model_type = RANDOM_FOREST, version = ''1.0'',
            accuracy = 0.92, precision = 0.89, recall = 0.91, f1_score = 0.90,
            last_trained = ''2024-01-15'', is_active = True\<rparr>"

definition gb_v1 :: ModelMetadata where
  "gb_v1 = \<lparr>model_id = ''gb_v1'', model_type = GRADIENT_BOOSTING, version = ''1.0'',
            accuracy = 0.94, precision = 0.92, recall = 0.93, f1_score = 0.92,
            last_trained = ''2024-01-16'', is_active = True\<rparr>"

definition if_v1 :: ModelMetadata where
  "if_v1 = \<lparr>model_id = ''if_v1'', model_type = ISOLATION_FOREST, version = ''1.0'',
            accuracy = 0.88, precision = 0.85, recall = 0.87, f1_score = 0.86,
            last_trained = ''2024-01-17'', is_active = True\<rparr>"

definition setup_models :: "InferencePipeline \<Rightarrow> InferencePipeline" where
  "setup_models pl =
     pl\<lparr>orchestrator :=
          foldl (\<lambda>s model. register_model s model 1) (orchestrator pl) [rf_v1, gb_v1, if_v1]\<rparr>"

definition assess_amount_risk :: "real \<Rightarrow> real" where
  "assess_amount_risk amount =
     (if amount > 10000 then 80
      else if amount > 5000 then 60
      else if amount > 1000 then 30
      else 10)"

definition assess_location_risk :: "string \<Rightarrow> real" where
  "assess_location_risk location = 20"

definition assess_time_risk :: "string \<Rightarrow> real" where
  "assess_time_risk time_text = 15"

definition calculate_risk_score :: "real \<Rightarrow> TransactionFeatures \<Rightarrow> real" where
  "calculate_risk_score fraud_prob features =
     (let base_score = fraud_prob * 100;
          amount_risk = assess_amount_risk (transaction_amount features);
          location_risk = assess_location_risk (user_location features);
          time_risk = assess_time_risk (transaction_time features);
          score = base_score * 0.5 + amount_risk * 0.2 + location_risk * 0.2 + time_risk * 0.1
      in min 100 (max 0 score))"

definition calculate_confidence :: "EnsembleDetails \<Rightarrow> real" where
  "calculate_confidence preds =
     (if individual_predictions preds = [] then 0
      else
        (let probabilities = map ip_fraud_probability (individual_predictions preds);
             mean_prob = sum_list probabilities / real (length probabilities);
             variance = sum_list (map (\<lambda>p. (p - mean_prob)\<^sup>2) probabilities)
                          / real (length probabilities);
             std_dev = sqrt variance
         in max 0 (1 - std_dev)))"

definition generate_recommendation :: "real \<Rightarrow> real \<Rightarrow> bool \<Rightarrow> string" where
  "generate_recommendation fraud_prob score flagged =
     (if \<not> flagged then ''APPROVE''
      else if fraud_prob > 0.8 \<or> score > 90 then ''BLOCK''
      else if fraud_prob > 0.6 \<or> score > 75 then ''REVIEW''
      else ''CHALLENGE'')"

text \<open>The flag that \<open>process_transaction\<close> computes between scoring and recommending.\<close>

definition compute_is_flagged :: "InferencePipeline \<Rightarrow> real \<Rightarrow> real \<Rightarrow> bool" where
  "compute_is_flagged pl fraud_prob score \<longleftrightarrow>
     fraud_prob \<ge> fraud_threshold pl \<or> score \<ge> risk_score_threshold pl"

text \<open>
  \<open>process_transaction\<close>. The wall clock enters as two arguments: \<open>elapsed_ms\<close>, the
  measured duration, and \<open>now\<close>, the time stamp. The feature vector is built from
  process-dependent hashes and never read by the orchestrator; it is not carried. An
  exception of the orchestrator leaves the pipeline's counters untouched.
\<close>

definition process_transaction ::
  "InferencePipeline \<Rightarrow> TransactionFeatures \<Rightarrow> (nat \<Rightarrow> real) \<Rightarrow> real \<Rightarrow> string
     \<Rightarrow> py_error + (FraudDetectionResult \<times> InferencePipeline)" where
  "process_transaction pl features rnd elapsed_ms now =
     (case ensemble_predict (orchestrator pl) rnd of
        Inl e \<Rightarrow> Inl e
      | Inr (fraud_prob, preds) \<Rightarrow>
          (let score = calculate_risk_score fraud_prob features;
               flagged = compute_is_flagged pl fraud_prob score;
               rec = generate_recommendation fraud_prob score flagged;
               pl' = pl\<lparr>inference_count := inference_count pl + 1,
                        total_inference_time := total_inference_time pl + elapsed_ms\<rparr>
           in Inr (\<lparr>res_transaction_id = transaction_id features,
                     res_fraud_probability = fraud_prob,
                     risk_score = score,
                     is_flagged = flagged,
                     confidence = calculate_confidence preds,
                     model_predictions = preds,
                     processing_time_ms = elapsed_ms,
                     timestamp = now,
                     recommendation = rec\<rparr>, pl')))"

section \<open>Risk tiers (fraud_detection_api/app.py)\<close>

text \<open>
  The labels are the Arabic strings of the source as UTF-8 bytes. In source order they
  read: very high risk, high risk, medium risk, low risk, safe.
\<close>

definition label_very_high :: string where
  "label_very_high =
     [CHR 0xD8, CHR 0xAE, CHR 0xD8, CHR 0xB7, CHR 0xD8, CHR 0xB1, CHR 0x20, CHR 0xD8,
      CHR 0xB9, CHR 0xD8, CHR 0xA7, CHR 0xD9, CHR 0x84, CHR 0xD9, CHR 0x8A, CHR 0x20,
      CHR 0xD8, CHR 0xAC, CHR 0xD8, CHR 0xAF, CHR 0xD8, CHR 0xA7, CHR 0xD9, CHR 0x8B]"

definition label_high :: string where
  "label_high =
     [CHR 0xD8, CHR 0xAE, CHR 0xD8, CHR 0xB7, CHR 0xD8, CHR 0xB1, CHR 0x20, CHR 0xD8,
      CHR 0xB9, CHR 0xD8, CHR 0xA7, CHR 0xD9, CHR 0x84, CHR 0xD9, CHR 0x8A]"

definition label_medium :: string where
  "label_medium =
     [CHR 0xD8, CHR 0xAE, CHR 0xD8, CHR 0xB7, CHR 0xD8, CHR 0xB1, CHR 0x20, CHR 0xD9,
      CHR 0x85, CHR 0xD8, CHR 0xAA, CHR 0xD9, CHR 0x88, CHR 0xD8, CHR 0xB3, CHR 0xD8,
      CHR 0xB7]"

definition label_low :: string where
  "label_low =
     [CHR 0xD8, CHR 0xAE, CHR 0xD8, CHR 0xB7, CHR 0xD8, CHR 0xB1, CHR 0x20, CHR 0xD9,
      CHR 0x85, CHR 0xD9, CHR 0x86, CHR 0xD8, CHR 0xAE, CHR 0xD9, CHR 0x81, CHR 0xD8,
      CHR 0xB6]"

definition label_safe :: string where
  "label_safe =
     [CHR 0xD8, CHR 0xA2, CHR 0xD9, CHR 0x85, CHR 0xD9, CHR 0x86]"

definition get_risk_level :: "real \<Rightarrow> string \<times> string" where
  "get_risk_level score =
     (if score \<ge> 80 then (label_very_high, ''red'')
      else if score \<ge> 60 then (label_high, ''orange'')
      else if score \<ge> 40 then (label_medium, ''yellow'')
      else if score \<ge> 20 then (label_low, ''blue'')
      else (label_safe, ''green''))"

section \<open>Feature mapping (fraud_detection_api/app_advanced.py)\<close>

text \<open>
  A request body is a dictionary of JSON values. Arrays and objects are one opaque
  constructor: no conversion below accepts them.
\<close>

datatype json = JNull | JBool bool | JNum real | JStr string | JCompound

text \<open>
  What \<open>map_transaction_to_ml_format\<close> takes from outside the transaction: the two
  values \<open>random.uniform\<close> would return, the clock, Python's reading of a string as
  a float and as an integer (\<open>None\<close> where Python raises \<open>ValueError\<close>), and
  Python's \<open>str.lower\<close>, whose Unicode case tables are not part of the repository.
\<close>

record ml_env =
  uniform_location :: real
  uniform_device :: real
  now_hour :: nat
  now_weekday :: nat
  parse_float :: "string \<Rightarrow> real option"
  parse_int :: "string \<Rightarrow> int option"
  str_lower :: "string \<Rightarrow> string"

record ml_format =
  amount :: real
  balance :: real
  age :: int
  transaction_type :: json
  payment_method :: json
  hour :: nat
  day_of_week :: nat
  location_risk :: real
  device_trust :: real



text \<open>\<open>k in s\<close> on strings: \<open>k\<close> occurs in \<open>s\<close> as a contiguous run.\<close>

fun str_contains :: "string \<Rightarrow> string \<Rightarrow> bool" where
  "str_contains k [] = (k = [])"
| "str_contains k (c # cs) = (take (length k) (c # cs) = k \<or> str_contains k cs)"

text \<open>
  The keyword lists; the Arabic entries are UTF-8 bytes and read: not known, unknown,
  outside (locations) and not (devices).
\<close>

definition suspicious_keywords :: "string list" where
  "suspicious_keywords =
     [[CHR 0xD8, CHR 0xBA, CHR 0xD9, CHR 0x8A, CHR 0xD8, CHR 0xB1, CHR 0x20, CHR 0xD9,
       CHR 0x85, CHR 0xD8, CHR 0xB9, CHR 0xD8, CHR 0xB1, CHR 0xD9, CHR 0x88, CHR 0xD9,
       CHR 0x81],
      [CHR 0xD9, CHR 0x85, CHR 0xD8, CHR 0xAC, CHR 0xD9, CHR 0x87, CHR 0xD9, CHR 0x88,
       CHR 0xD9, CHR 0x84],
      ''unknown'',
      [CHR 0xD8, CHR 0xAE, CHR 0xD8, CHR 0xA7, CHR 0xD8, CHR 0xB1, CHR 0xD8, CHR 0xAC]]"







section \<open>Notions used to state the properties\<close>

text \<open>
  The registry is consistent when every listed id is a key of \<open>models\<close>, every key of
  \<open>models\<close> has a weight, and every entry is stored under its own id.
\<close>

definition registry_inv :: "ModelOrchestrator \<Rightarrow> bool" where
  "registry_inv s \<longleftrightarrow>
     set (active_models s) \<subseteq> dom (models s) \<and>
     dom (models s) \<subseteq> dom (model_weights s) \<and>
     (\<forall>mid metadata. models s mid = Some metadata \<longrightarrow> model_id metadata = mid)"

definition weights_nonneg :: "ModelOrchestrator \<Rightarrow> bool" where
  "weights_nonneg s \<longleftrightarrow> (\<forall>mid weight. model_weights s mid = Some weight \<longrightarrow> 0 \<le> weight)"

text \<open>The weights a caller hands to an administrative call are all non-negative.\<close>

fun supplied_weights_nonneg :: "admin_op \<Rightarrow> bool" where
  "supplied_weights_nonneg (Register metadata weight) = (0 \<le> weight)"
| "supplied_weights_nonneg (UpdateWeights weights) = list_all (\<lambda>(mid, weight). 0 \<le> weight) weights"
| "supplied_weights_nonneg (Activate mid) = True"
| "supplied_weights_nonneg (Deactivate mid) = True"

definition weight_of :: "ModelOrchestrator \<Rightarrow> string \<Rightarrow> real" where
  "weight_of s mid = (case model_weights s mid of None \<Rightarrow> 0 | Some weight \<Rightarrow> weight)"

text \<open>The weights of the active entries, in the order of the active list.\<close>

definition active_weights :: "ModelOrchestrator \<Rightarrow> real list" where
  "active_weights s = map (weight_of s) (active_models s)"

text \<open>\<open>draws rnd k n\<close> are the \<open>n\<close> values \<open>rnd k\<close>, \<open>rnd (k + 1)\<close>, ... in order.\<close>

fun draws :: "(nat \<Rightarrow> real) \<Rightarrow> nat \<Rightarrow> nat \<Rightarrow> real list" where
  "draws rnd k 0 = []"
| "draws rnd k (Suc n) = rnd k # draws rnd (Suc k) n"

text \<open>
  The per-model fraud probabilities of one prediction: the \<open>i\<close>-th active entry gets the
  \<open>i\<close>-th value drawn.
\<close>

definition active_probabilities :: "ModelOrchestrator \<Rightarrow> (nat \<Rightarrow> real) \<Rightarrow> real list" where
  "active_probabilities s rnd = draws rnd 0 (length (active_models s))"

text \<open>A source of draws that returns the listed values first, and 0 afterwards.\<close>

definition draws_of :: "real list \<Rightarrow> nat \<Rightarrow> real" where
  "draws_of ps k = (if k < length ps then ps ! k else 0)"

text \<open>
  The formula of the specification, on a list of (weight, probability) pairs:
  the sum of weight times probability over the sum of the weights.
\<close>

definition weighted_average :: "(real \<times> real) list \<Rightarrow> real" where
  "weighted_average wps = (\<Sum>(w, p)\<leftarrow>wps. w * p) / (\<Sum>(w, p)\<leftarrow>wps. w)"

text \<open>The clamp and the amount tiers as the specification words them.\<close>

definition spec_clamp :: "real \<Rightarrow> real \<Rightarrow> real \<Rightarrow> real" where
  "spec_clamp x lo hi = (if x < lo then lo else if hi < x then hi else x)"

definition spec_amount_tier :: "real \<Rightarrow> real" where
  "spec_amount_tier a =
     (if 10000 < a then 80 else if 5000 < a then 60 else if 1000 < a then 30 else 10)"

text \<open>
  The four-way precedence of the specification at the thresholds 0.5 and 70.
\<close>

definition spec_recommendation :: "real \<Rightarrow> real \<Rightarrow> string" where
  "spec_recommendation p s =
     (if \<not> (p \<ge> 0.5 \<or> s \<ge> 70) then ''APPROVE''
      else if p > 0.8 \<or> s > 90 then ''BLOCK''
      else if p > 0.6 \<or> s > 75 then ''REVIEW''
      else ''CHALLENGE'')"





text \<open>
  A sample environment and sample inputs. The parsers of the sample environment read
  plain runs of ASCII digits, and its \<open>str_lower\<close> lowers the letters A to Z; on
  ASCII text, which is all the samples hold, both agree with Python.
\<close>

definition ascii_lower_char :: "char \<Rightarrow> char" where
  "ascii_lower_char c =
     (if 65 \<le> (of_char c :: nat) \<and> (of_char c :: nat) \<le> 90
      then char_of (of_char c + (32::nat)) else c)"

fun digits_value :: "string \<Rightarrow> nat \<Rightarrow> nat option" where
  "digits_value [] acc = Some acc"
| "digits_value (c # cs) acc =
     (if 48 \<le> (of_char c :: nat) \<and> (of_char c :: nat) \<le> 57
      then digits_value cs (10 * acc + (of_char c - 48))
      else None)"

definition parse_digits :: "string \<Rightarrow> nat option" where
  "parse_digits s = (if s = [] then None else digits_value s 0)"

definition sample_env :: ml_env where
  "sample_env =
     \<lparr>uniform_location = 0.2, uniform_device = 0.8, now_hour = 3, now_weekday = 2,
      parse_float = (\<lambda>s. map_option real (parse_digits s)),
      parse_int = (\<lambda>s. map_option int (parse_digits s)),
      str_lower = map ascii_lower_char\<rparr>"

definition sample_transaction :: TransactionFeatures where
  "sample_transaction =
     \<lparr>transaction_id = ''txn_12345'', transaction_amount = 75000,
      merchant_id = ''merch_001'', merchant_category = ''international_transfer'',
      user_id = ''user_001'', user_location = ''unknown'',
      transaction_time = ''2024-01-20T03:00:00Z'', device_fingerprint = ''device_abc123'',
      ip_address = ''192.168.1.1'', card_last_four = ''4242''\<rparr>"

text \<open>
  The keyword test of \<open>map_transaction_to_ml_format\<close> on a location text: some
  keyword occurs in the lowered text.
\<close>

definition matches_suspicious_keyword :: "ml_env \<Rightarrow> string \<Rightarrow> bool" where
  "matches_suspicious_keyword env location =
     list_ex (\<lambda>k. str_contains k (str_lower env location)) suspicious_keywords"

text \<open>
  The default pipeline with two registered models of weight 1, and a request body
  without an age.
\<close>

definition sample_pipeline :: InferencePipeline where
  "sample_pipeline =
     default_pipeline\<lparr>orchestrator := run_ops [Register rf_v1 1, Register gb_v1 1]\<rparr>"


section \<open>The registry stays consistent\<close>

lemma registry_inv_init: "registry_inv init_orchestrator"
  by (simp add: registry_inv_def init_orchestrator_def)

lemma registry_inv_register: "registry_inv s \<Longrightarrow> registry_inv (register_model s metadata weight)"
  by (auto simp: registry_inv_def register_model_def Let_def)

lemma registry_inv_activate: "registry_inv s \<Longrightarrow> registry_inv (activate_model s mid)"
  by (auto simp: registry_inv_def activate_model_def Let_def split: option.splits)

lemma registry_inv_deactivate: "registry_inv s \<Longrightarrow> registry_inv (snd (deactivate_model s mid))"
  by (auto simp: registry_inv_def deactivate_model_def Let_def
           split: option.splits dest: notin_set_remove1)

lemma update_model_weights_models [simp]: "models (update_model_weights s ws) = models s"
  by (induction s ws rule: update_model_weights.induct) auto

lemma update_model_weights_active [simp]:
  "active_models (update_model_weights s ws) = active_models s"
  by (induction s ws rule: update_model_weights.induct) auto

lemma update_model_weights_dom:
  "mid \<in> dom (model_weights s) \<Longrightarrow> mid \<in> dom (model_weights (update_model_weights s ws))"
proof (induction ws arbitrary: s)
  case Nil
  then show ?case by simp
next
  case (Cons mw rest)
  obtain m w where mw: "mw = (m, w)" by (cases mw)
  let ?s1 = "if models s m \<noteq> None then s\<lparr>model_weights := (model_weights s)(m \<mapsto> w)\<rparr> else s"
  from Cons.prems have "mid \<in> dom (model_weights ?s1)" by auto
  then have "mid \<in> dom (model_weights (update_model_weights ?s1 rest))" by (rule Cons.IH)
  then show ?case by (simp add: mw)
qed

lemma registry_inv_update:
  assumes "registry_inv s"
  shows "registry_inv (update_model_weights s ws)"
proof -
  have "dom (models s) \<subseteq> dom (model_weights (update_model_weights s ws))"
  proof
    fix mid assume "mid \<in> dom (models s)"
    with assms have "mid \<in> dom (model_weights s)" by (auto simp: registry_inv_def)
    then show "mid \<in> dom (model_weights (update_model_weights s ws))"
      by (rule update_model_weights_dom)
  qed
  with assms show ?thesis by (simp add: registry_inv_def)
qed

lemma registry_inv_apply_op: "registry_inv s \<Longrightarrow> registry_inv (apply_op s op)"
  by (cases op)
     (simp_all add: registry_inv_register registry_inv_activate registry_inv_deactivate
        registry_inv_update)

lemma registry_inv_foldl: "registry_inv s \<Longrightarrow> registry_inv (foldl apply_op s ops)"
  by (induction ops arbitrary: s) (simp_all add: registry_inv_apply_op)

lemma registry_inv_run_ops: "registry_inv (run_ops ops)"
  by (simp add: run_ops_def registry_inv_foldl registry_inv_init)

section \<open>Non-negative weights are kept\<close>

lemma weights_nonneg_init: "weights_nonneg init_orchestrator"
  by (simp add: weights_nonneg_def init_orchestrator_def)

lemma weights_nonneg_register:
  "weights_nonneg s \<Longrightarrow> 0 \<le> weight \<Longrightarrow> weights_nonneg (register_model s metadata weight)"
  by (auto simp: weights_nonneg_def register_model_def Let_def)

lemma activate_model_weights [simp]: "model_weights (activate_model s mid) = model_weights s"
  by (simp add: activate_model_def Let_def split: option.splits)

lemma deactivate_model_weights [simp]:
  "model_weights (snd (deactivate_model s mid)) = model_weights s"
  by (simp add: deactivate_model_def Let_def split: option.splits)

lemma weights_nonneg_update:
  "weights_nonneg s \<Longrightarrow> list_all (\<lambda>(mid, weight). 0 \<le> weight) ws
     \<Longrightarrow> weights_nonneg (update_model_weights s ws)"
proof (induction ws arbitrary: s)
  case Nil
  then show ?case by simp
next
  case (Cons mw rest)
  obtain m w where mw: "mw = (m, w)" by (cases mw)
  let ?s1 = "if models s m \<noteq> None then s\<lparr>model_weights := (model_weights s)(m \<mapsto> w)\<rparr> else s"
  from Cons.prems mw have "0 \<le> w" and rest: "list_all (\<lambda>(mid, weight). 0 \<le> weight) rest"
    by simp_all
  with Cons.prems(1) have "weights_nonneg ?s1"
    by (auto simp: weights_nonneg_def)
  then have "weights_nonneg (update_model_weights ?s1 rest)"
    using rest by (rule Cons.IH)
  then show ?case by (simp add: mw)
qed

lemma weights_nonneg_apply_op:
  assumes that: "weights_nonneg s" "supplied_weights_nonneg op"
  shows "weights_nonneg (apply_op s op)"
proof (cases op)
  case (Register metadata weight)
  then show ?thesis using that by (simp add: weights_nonneg_register)
next
  case (Activate mid)
  then show ?thesis using that by (simp add: weights_nonneg_def)
next
  case (Deactivate mid)
  then show ?thesis using that by (simp add: weights_nonneg_def)
next
  case (UpdateWeights ws)
  then show ?thesis using that by (simp add: weights_nonneg_update)
qed

lemma weights_nonneg_foldl:
  "weights_nonneg s \<Longrightarrow> list_all supplied_weights_nonneg ops
     \<Longrightarrow> weights_nonneg (foldl apply_op s ops)"
  by (induction ops arbitrary: s) (simp_all add: weights_nonneg_apply_op)

section \<open>The prediction loop on a consistent registry\<close>

lemma length_draws [simp]: "length (draws rnd k n) = n"
  by (induction n arbitrary: k) simp_all

lemma sum_list_zip_fst:
  "length ws = length ps \<Longrightarrow> (\<Sum>(w, p)\<leftarrow>zip ws ps. w) = sum_list (ws :: real list)"
  by (induction ws ps rule: list_induct2) simp_all

lemma ensemble_loop_ok:
  assumes "set xs \<subseteq> dom (models s)" and "set xs \<subseteq> dom (model_weights s)"
  shows "\<exists>ps. ensemble_loop s rnd xs k (predictions, weighted_sum, total_weight) =
           Inr (predictions @ ps,
                weighted_sum + (\<Sum>(w, p)\<leftarrow>zip (map (weight_of s) xs) (draws rnd k (length xs)). w * p),
                total_weight + sum_list (map (weight_of s) xs))
         \<and> map pr_model_id ps = xs
         \<and> map fraud_probability ps = draws rnd k (length xs)"
  using assms
proof (induction xs arbitrary: k predictions weighted_sum total_weight)
  case Nil
  then show ?case by simp
next
  case (Cons mid rest)
  from Cons.prems obtain metadata weight
    where m: "models s mid = Some metadata" and w: "model_weights s mid = Some weight"
    by auto
  let ?p = "\<lparr>pr_model_id = mid, pr_model_type = model_type metadata,
             fraud_probability = rnd k, confidence_score = accuracy metadata\<rparr>"
  from Cons.prems have r: "set rest \<subseteq> dom (models s)" "set rest \<subseteq> dom (model_weights s)"
    by auto
  from Cons.IH [OF r, of "Suc k" "predictions @ [?p]" "weighted_sum + rnd k * weight" "total_weight + weight"]
  obtain ps where ps:
    "ensemble_loop s rnd rest (Suc k) (predictions @ [?p], weighted_sum + rnd k * weight, total_weight + weight) =
       Inr ((predictions @ [?p]) @ ps,
            weighted_sum + rnd k * weight + (\<Sum>(w, p)\<leftarrow>zip (map (weight_of s) rest) (draws rnd (Suc k) (length rest)). w * p),
            total_weight + weight + sum_list (map (weight_of s) rest))"
    "map pr_model_id ps = rest"
    "map fraud_probability ps = draws rnd (Suc k) (length rest)"
    by blast
  have step: "ensemble_loop s rnd (mid # rest) k (predictions, weighted_sum, total_weight) =
      ensemble_loop s rnd rest (Suc k)
        (predictions @ [?p], weighted_sum + rnd k * weight, total_weight + weight)"
    by (simp add: predict_with_model_def m w)
  have wo: "weight_of s mid = weight"
    by (simp add: weight_of_def w)
  show ?case
  proof (intro exI [of _ "?p # ps"] conjI)
    show "ensemble_loop s rnd (mid # rest) k (predictions, weighted_sum, total_weight) =
        Inr (predictions @ ?p # ps,
             weighted_sum + (\<Sum>(w, p)\<leftarrow>zip (map (weight_of s) (mid # rest)) (draws rnd k (length (mid # rest))). w * p),
             total_weight + sum_list (map (weight_of s) (mid # rest)))"
      unfolding step ps(1) by (simp add: wo algebra_simps)
    show "map pr_model_id (?p # ps) = mid # rest"
      by (simp add: ps(2))
    show "map fraud_probability (?p # ps) = draws rnd k (length (mid # rest))"
      by (simp add: ps(3))
  qed
qed

text \<open>
  On a consistent registry with a non-empty active list the prediction returns: the
  pooled probability is the weighted average when the total weight is positive and 0
  otherwise, and there is one individual prediction per active entry, in order.
\<close>

lemma ensemble_predict_ok:
  assumes inv: "registry_inv s" and ne: "active_models s \<noteq> []"
  shows "\<exists>d. ensemble_predict s rnd =
            Inr (if 0 < sum_list (active_weights s)
                 then weighted_average (zip (active_weights s) (active_probabilities s rnd))
                 else 0, d)
          \<and> ensemble_fraud_probability d =
              (if 0 < sum_list (active_weights s)
               then weighted_average (zip (active_weights s) (active_probabilities s rnd))
               else 0)
          \<and> map ip_model_id (individual_predictions d) = active_models s
          \<and> map ip_fraud_probability (individual_predictions d) = active_probabilities s rnd
          \<and> model_count d = length (active_models s)"
proof -
  from inv have sub: "set (active_models s) \<subseteq> dom (models s)"
      "set (active_models s) \<subseteq> dom (model_weights s)"
    by (auto simp: registry_inv_def)
  from ensemble_loop_ok [OF sub, of rnd 0 "[]" 0 0]
  obtain ps where ps:
    "ensemble_loop s rnd (active_models s) 0 ([], 0, 0) =
       Inr (ps,
            (\<Sum>(w, p)\<leftarrow>zip (active_weights s) (active_probabilities s rnd). w * p),
            sum_list (active_weights s))"
    "map pr_model_id ps = active_models s"
    "map fraud_probability ps = active_probabilities s rnd"
    by (auto simp: active_weights_def active_probabilities_def)
  have len: "length ps = length (active_models s)"
    using ps(2) by (metis length_map)
  have avg: "weighted_average (zip (active_weights s) (active_probabilities s rnd)) =
      (\<Sum>(w, p)\<leftarrow>zip (active_weights s) (active_probabilities s rnd). w * p) / sum_list (active_weights s)"
    by (simp add: weighted_average_def sum_list_zip_fst active_weights_def active_probabilities_def)
  have ids: "map ip_model_id (map individual_prediction ps) = map pr_model_id ps"
    by (simp add: individual_prediction_def)
  have probs: "map ip_fraud_probability (map individual_prediction ps) = map fraud_probability ps"
    by (simp add: individual_prediction_def)
  show ?thesis
    unfolding ensemble_predict_def using ne
    by (simp add: ps(1) Let_def avg ids probs ps(2) ps(3) len del: map_map)
qed

lemma list_active_models_from_ok:
  "set xs \<subseteq> dom (models s) \<Longrightarrow>
     list_active_models_from s xs = Inr (map (\<lambda>mid. the (models s mid)) xs)"
  by (induction xs) auto

lemma count_list_map_key:
  "(\<And>k. k \<in> set xs \<Longrightarrow> (f k = y) = (k = m)) \<Longrightarrow> count_list (map f xs) y = count_list xs m"
  by (induction xs) auto

section \<open>Sample registries\<close>

lemma sample_active_two:
  "active_models (run_ops [Register rf_v1 w1, Register gb_v1 w2]) = [''rf_v1'', ''gb_v1'']"
  by (simp add: run_ops_def register_model_def init_orchestrator_def rf_v1_def gb_v1_def Let_def)


section \<open>The claims about the orchestrator\<close>



text \<open>
  C10. If the active model set is non-empty but the total weight of the active models
  is 0, the ensemble prediction does not fail and does not divide by zero: it returns
  an ensemble probability of exactly 0.
\<close>

theorem ensemble_predict_zero_total_weight:
  assumes "active_models (run_ops ops) \<noteq> []"
    and "sum_list (active_weights (run_ops ops)) = 0"
  shows "\<exists>d. ensemble_predict (run_ops ops) rnd = Inr (0, d)
          \<and> ensemble_fraud_probability d = 0
          \<and> model_count d = length (active_models (run_ops ops))"
  using ensemble_predict_ok [OF registry_inv_run_ops assms(1), of rnd] assms(2)
  by auto

theorem ensemble_predict_zero_total_weight_witness:
  "active_models (run_ops [Register rf_v1 1, Register gb_v1 1,
                            UpdateWeights [(''rf_v1'', 0), (''gb_v1'', 0)]]) \<noteq> []
   \<and> sum_list (active_weights (run_ops [Register rf_v1 1, Register gb_v1 1,
                            UpdateWeights [(''rf_v1'', 0), (''gb_v1'', 0)]])) = 0
   \<and> (\<exists>d. ensemble_predict (run_ops [Register rf_v1 1, Register gb_v1 1,
                            UpdateWeights [(''rf_v1'', 0), (''gb_v1'', 0)]]) (draws_of [0.8, 0.9])
            = Inr (0, d) \<and> model_count d = 2)"
proof -
  let ?s = "run_ops [Register rf_v1 1, Register gb_v1 1,
                     UpdateWeights [(''rf_v1'', 0), (''gb_v1'', 0)]]"
  have a: "active_models ?s = [''rf_v1'', ''gb_v1'']"
    by (simp add: run_ops_def register_model_def init_orchestrator_def rf_v1_def gb_v1_def Let_def)
  have b: "sum_list (active_weights ?s) = 0"
    by (simp add: active_weights_def weight_of_def run_ops_def register_model_def
          init_orchestrator_def rf_v1_def gb_v1_def Let_def)
  from a have ne: "active_models ?s \<noteq> []" by simp
  from ensemble_predict_zero_total_weight [OF ne b, of "draws_of [0.8, 0.9]"] ne b
  show ?thesis by (auto simp: a)
qed




text \<open>
  C6, as amended. After every sequence of register, activate, deactivate and
  update-weights calls on a fresh orchestrator, every id in the active list is a
  registered id; and when every weight handed to a register or update-weights call is
  at least 0, every stored weight is at least 0.
\<close>

theorem active_subset_registered_and_weights_kept_nonneg:
  "set (active_models (run_ops ops)) \<subseteq> dom (models (run_ops ops))
   \<and> (list_all supplied_weights_nonneg ops \<longrightarrow>
        (\<forall>mid weight. model_weights (run_ops ops) mid = Some weight \<longrightarrow> 0 \<le> weight))"
proof (intro conjI impI)
  show "set (active_models (run_ops ops)) \<subseteq> dom (models (run_ops ops))"
    using registry_inv_run_ops [of ops] by (simp add: registry_inv_def)
next
  assume "list_all supplied_weights_nonneg ops"
  with weights_nonneg_init have "weights_nonneg (run_ops ops)"
    unfolding run_ops_def by (rule weights_nonneg_foldl)
  then show "\<forall>mid weight. model_weights (run_ops ops) mid = Some weight \<longrightarrow> 0 \<le> weight"
    by (simp add: weights_nonneg_def)
qed

theorem active_subset_registered_and_weights_kept_nonneg_witness:
  "list_all supplied_weights_nonneg
     [Register rf_v1 1, Register gb_v1 2, Deactivate ''rf_v1'', UpdateWeights [(''gb_v1'', 0)]]
   \<and> model_weights
       (run_ops [Register rf_v1 1, Register gb_v1 2, Deactivate ''rf_v1'',
                 UpdateWeights [(''gb_v1'', 0)]]) ''rf_v1'' = Some 1
   \<and> (0::real) \<le> 1
   \<and> ''gb_v1'' \<in> set (active_models
       (run_ops [Register rf_v1 1, Register gb_v1 2, Deactivate ''rf_v1'',
                 UpdateWeights [(''gb_v1'', 0)]]))
   \<and> ''gb_v1'' \<in> dom (models
       (run_ops [Register rf_v1 1, Register gb_v1 2, Deactivate ''rf_v1'',
                 UpdateWeights [(''gb_v1'', 0)]]))"
proof -
  let ?ops = "[Register rf_v1 1, Register gb_v1 2, Deactivate ''rf_v1'',
               UpdateWeights [(''gb_v1'', 0)]]"
  have a: "list_all supplied_weights_nonneg ?ops" by simp
  have b: "model_weights (run_ops ?ops) ''rf_v1'' = Some 1"
    by (simp add: run_ops_def register_model_def deactivate_model_def init_orchestrator_def
          rf_v1_def gb_v1_def Let_def)
  have c: "''gb_v1'' \<in> set (active_models (run_ops ?ops))"
    by (simp add: run_ops_def register_model_def deactivate_model_def init_orchestrator_def
          rf_v1_def gb_v1_def Let_def)
  from active_subset_registered_and_weights_kept_nonneg [of ?ops] a b c
  show ?thesis by blast
qed

text \<open>
  C6 as the specification words it fails: a weight below 0 handed to register is stored
  as it is.
\<close>

theorem negative_weight_is_stored:
  "model_weights (run_ops [Register rf_v1 (- 1)]) ''rf_v1'' = Some (- 1) \<and> \<not> (0::real) \<le> - 1"
  by (simp add: run_ops_def register_model_def init_orchestrator_def rf_v1_def Let_def)

text \<open>
  C9, as amended. When register is called with a model whose id is already in the
  active list and whose metadata is marked active, the id is appended once more, so that it is listed at
  least twice; the metadata and the weight are replaced; listing the active models
  returns the new metadata as often as the id is listed; and the prediction has one
  entry per listing, each listing of the id entering the weighted sum and the total
  weight with the new weight.
\<close>

theorem register_again_lists_model_twice:
  assumes "model_id metadata \<in> set (active_models (run_ops ops))"
    and "is_active metadata"
  shows "active_models (register_model (run_ops ops) metadata weight) =
           active_models (run_ops ops) @ [model_id metadata]
       \<and> count_list (active_models (register_model (run_ops ops) metadata weight)) (model_id metadata) =
           count_list (active_models (run_ops ops)) (model_id metadata) + 1
       \<and> 2 \<le> count_list (active_models (register_model (run_ops ops) metadata weight)) (model_id metadata)
       \<and> models (register_model (run_ops ops) metadata weight) (model_id metadata) = Some metadata
       \<and> model_weights (register_model (run_ops ops) metadata weight) (model_id metadata) = Some weight
       \<and> (\<exists>mds. list_active_models (register_model (run_ops ops) metadata weight) = Inr mds
            \<and> map model_id mds = active_models (register_model (run_ops ops) metadata weight)
            \<and> count_list mds metadata =
                count_list (active_models (run_ops ops)) (model_id metadata) + 1)
       \<and> active_weights (register_model (run_ops ops) metadata weight) =
           map (\<lambda>mid. if mid = model_id metadata then weight else weight_of (run_ops ops) mid)
             (active_models (run_ops ops)) @ [weight]
       \<and> (\<exists>d. ensemble_predict (register_model (run_ops ops) metadata weight) rnd =
                Inr (if 0 < sum_list (active_weights (register_model (run_ops ops) metadata weight))
                     then weighted_average
                            (zip (active_weights (register_model (run_ops ops) metadata weight))
                                 (active_probabilities (register_model (run_ops ops) metadata weight) rnd))
                     else 0, d)
            \<and> map ip_model_id (individual_predictions d) =
                active_models (run_ops ops) @ [model_id metadata]
            \<and> model_count d = length (active_models (run_ops ops)) + 1)"
proof -
  let ?s = "run_ops ops"
  let ?m = "model_id metadata"
  let ?t = "register_model ?s metadata weight"
  have inv: "registry_inv ?t"
    by (simp add: registry_inv_register registry_inv_run_ops)
  have act: "active_models ?t = active_models ?s @ [?m]"
    using assms(2) by (simp add: register_model_def Let_def)
  have cnt: "count_list (active_models ?t) ?m = count_list (active_models ?s) ?m + 1"
    by (simp add: act)
  from assms(1) have "count_list (active_models ?s) ?m \<noteq> 0"
    by (simp add: count_list_0_iff)
  then have "0 < count_list (active_models ?s) ?m"
    by simp
  with cnt have two: "2 \<le> count_list (active_models ?t) ?m"
    by simp
  have mod: "models ?t ?m = Some metadata"
    by (simp add: register_model_def Let_def)
  have wgt: "model_weights ?t ?m = Some weight"
    by (simp add: register_model_def Let_def)
  from inv have sub: "set (active_models ?t) \<subseteq> dom (models ?t)"
    by (simp add: registry_inv_def)
  have key: "model_id (the (models ?t k)) = k" if "k \<in> set (active_models ?t)" for k
  proof -
    from that sub obtain md where "models ?t k = Some md" by auto
    with inv show ?thesis by (auto simp: registry_inv_def)
  qed
  let ?mds = "map (\<lambda>mid. the (models ?t mid)) (active_models ?t)"
  have lst: "list_active_models ?t = Inr ?mds"
    unfolding list_active_models_def using sub by (rule list_active_models_from_ok)
  have ids: "map model_id ?mds = active_models ?t"
    using key by (simp add: map_idI)
  have "count_list ?mds metadata = count_list (active_models ?t) ?m"
  proof (rule count_list_map_key)
    fix k assume k: "k \<in> set (active_models ?t)"
    show "(the (models ?t k) = metadata) = (k = ?m)"
    proof
      assume "the (models ?t k) = metadata"
      with key [OF k] show "k = ?m" by simp
    next
      assume "k = ?m"
      with mod show "the (models ?t k) = metadata" by simp
    qed
  qed
  with cnt have cmd: "count_list ?mds metadata = count_list (active_models ?s) ?m + 1"
    by simp
  have aw: "active_weights ?t =
      map (\<lambda>mid. if mid = ?m then weight else weight_of ?s mid) (active_models ?s) @ [weight]"
    using assms(2) by (simp add: active_weights_def weight_of_def register_model_def Let_def)
  from act have ne: "active_models ?t \<noteq> []" by simp
  from ensemble_predict_ok [OF inv ne, of rnd] obtain d where d:
    "ensemble_predict ?t rnd =
       Inr (if 0 < sum_list (active_weights ?t)
            then weighted_average (zip (active_weights ?t) (active_probabilities ?t rnd))
            else 0, d)"
    "map ip_model_id (individual_predictions d) = active_models ?t"
    "model_count d = length (active_models ?t)"
    by blast
  have ens: "\<exists>d. ensemble_predict ?t rnd =
       Inr (if 0 < sum_list (active_weights ?t)
            then weighted_average (zip (active_weights ?t) (active_probabilities ?t rnd))
            else 0, d)
     \<and> map ip_model_id (individual_predictions d) = active_models ?s @ [?m]
     \<and> model_count d = length (active_models ?s) + 1"
    using d by (intro exI [of _ d]) (simp add: act)
  have lstx: "\<exists>mds. list_active_models ?t = Inr mds
            \<and> map model_id mds = active_models ?t
            \<and> count_list mds metadata = count_list (active_models ?s) ?m + 1"
    using lst ids cmd by blast
  from act cnt two mod wgt lstx aw ens show ?thesis
    by (intro conjI)
qed

theorem register_again_lists_model_twice_witness:
  "model_id rf_v1 \<in> set (active_models (run_ops [Register rf_v1 1]))
   \<and> is_active rf_v1
   \<and> active_models (register_model (run_ops [Register rf_v1 1]) rf_v1 3) = [''rf_v1'', ''rf_v1'']
   \<and> list_active_models (register_model (run_ops [Register rf_v1 1]) rf_v1 3) = Inr [rf_v1, rf_v1]
   \<and> (\<exists>d. ensemble_predict (register_model (run_ops [Register rf_v1 1]) rf_v1 3) (draws_of [0.2, 0.6]) =
          Inr ((3 * 0.2 + 3 * 0.6) / (3 + 3), d)
        \<and> model_count d = 2)"
proof -
  let ?s = "run_ops [Register rf_v1 1]"
  let ?t = "register_model ?s rf_v1 3"
  let ?rnd = "draws_of [0.2, 0.6]"
  have s: "active_models ?s = [''rf_v1'']"
    by (simp add: run_ops_def register_model_def init_orchestrator_def rf_v1_def Let_def)
  have id: "model_id rf_v1 = ''rf_v1''"
    by (simp add: rf_v1_def)
  have a: "model_id rf_v1 \<in> set (active_models ?s)"
    by (simp add: s id)
  have b: "is_active rf_v1"
    by (simp add: rf_v1_def)
  note main = register_again_lists_model_twice [OF a b, of 3 ?rnd]
  from main have act: "active_models ?t = [''rf_v1'', ''rf_v1'']"
    by (simp add: s id)
  from main have mod: "models ?t ''rf_v1'' = Some rf_v1"
    by (simp add: id)
  have l: "list_active_models ?t = Inr [rf_v1, rf_v1]"
    by (simp add: list_active_models_def act mod)
  from main have aw: "active_weights ?t = [3, 3]"
    by (simp add: s id)
  have pr: "active_probabilities ?t ?rnd = [0.2, 0.6]"
    by (simp add: active_probabilities_def act draws_of_def)
  have avg: "weighted_average (zip (active_weights ?t) (active_probabilities ?t ?rnd)) =
      (3 * 0.2 + 3 * 0.6) / (3 + 3)"
    unfolding aw pr by (simp add: weighted_average_def)
  have pos: "0 < sum_list (active_weights ?t)"
    unfolding aw by simp
  from main obtain d where d:
    "ensemble_predict ?t ?rnd =
       Inr (if 0 < sum_list (active_weights ?t)
            then weighted_average (zip (active_weights ?t) (active_probabilities ?t ?rnd))
            else 0, d)"
    "model_count d = length (active_models ?s) + 1"
    by blast
  from d(1) have e: "ensemble_predict ?t ?rnd = Inr ((3 * 0.2 + 3 * 0.6) / (3 + 3), d)"
    by (simp only: pos avg if_True)
  from d(2) have c: "model_count d = 2"
    by (simp add: s)
  from e c have "\<exists>d. ensemble_predict ?t ?rnd = Inr ((3 * 0.2 + 3 * 0.6) / (3 + 3), d) \<and> model_count d = 2"
    by blast
  with a b act l show ?thesis
    by (intro conjI)
qed

text \<open>
  C9 as the specification words it fails: registering an active id again with metadata
  that is not marked active appends nothing; the model stays listed once and the
  prediction has one entry.
\<close>

theorem inactive_metadata_is_not_appended:
  "''rf_v1'' \<in> set (active_models (run_ops [Register rf_v1 1]))
   \<and> model_id (rf_v1\<lparr>is_active := False\<rparr>) = ''rf_v1''
   \<and> active_models (register_model (run_ops [Register rf_v1 1]) (rf_v1\<lparr>is_active := False\<rparr>) 3) =
       [''rf_v1'']
   \<and> list_active_models (register_model (run_ops [Register rf_v1 1]) (rf_v1\<lparr>is_active := False\<rparr>) 3) =
       Inr [rf_v1\<lparr>is_active := False\<rparr>]
   \<and> map_sum id (model_count \<circ> snd)
        (ensemble_predict
           (register_model (run_ops [Register rf_v1 1]) (rf_v1\<lparr>is_active := False\<rparr>) 3)
           (draws_of [0.2, 0.6])) = Inr 1"
  by (simp add: run_ops_def register_model_def init_orchestrator_def rf_v1_def Let_def
        list_active_models_def ensemble_predict_def predict_with_model_def draws_of_def)

section \<open>The claims about the decision policy\<close>

lemma sample_pipeline_result:
  "\<exists>r pl'. process_transaction sample_pipeline sample_transaction (draws_of [0.8, 0.9]) 1 [] =
       Inr (r, pl')
     \<and> res_fraud_probability r = 0.85 \<and> risk_score r = 64
     \<and> is_flagged r \<and> recommendation r = ''BLOCK''"
  by (simp add: process_transaction_def sample_pipeline_def default_pipeline_def
        InferencePipeline_init_def ensemble_predict_def predict_with_model_def run_ops_def
        register_model_def init_orchestrator_def rf_v1_def gb_v1_def Let_def draws_of_def
        calculate_risk_score_def assess_amount_risk_def assess_location_risk_def
        assess_time_risk_def sample_transaction_def compute_is_flagged_def
        generate_recommendation_def)

text \<open>
  C1. For every fraud probability \<open>p\<close> and risk score \<open>s\<close>, the recommendation of the
  default pipeline follows the precedence of the specification: not flagged (neither
  \<open>p \<ge> 0.5\<close> nor \<open>s \<ge> 70\<close>) gives APPROVE; otherwise \<open>p > 0.8\<close> or \<open>s > 90\<close> gives
  BLOCK; otherwise \<open>p > 0.6\<close> or \<open>s > 75\<close> gives REVIEW; otherwise CHALLENGE. The same
  holds of the result that \<open>process_transaction\<close> returns, at these thresholds.
\<close>

theorem recommendation_follows_precedence:
  "compute_is_flagged default_pipeline p s = (p \<ge> 0.5 \<or> s \<ge> 70)
   \<and> generate_recommendation p s (compute_is_flagged default_pipeline p s) =
       (if \<not> (p \<ge> 0.5 \<or> s \<ge> 70) then ''APPROVE''
        else if p > 0.8 \<or> s > 90 then ''BLOCK''
        else if p > 0.6 \<or> s > 75 then ''REVIEW''
        else ''CHALLENGE'')
   \<and> (fraud_threshold pl = 0.5 \<and> risk_score_threshold pl = 70
        \<and> process_transaction pl features rnd elapsed_ms now = Inr (r, pl')
      \<longrightarrow> is_flagged r = (res_fraud_probability r \<ge> 0.5 \<or> risk_score r \<ge> 70)
        \<and> recommendation r = spec_recommendation (res_fraud_probability r) (risk_score r))"
proof (intro conjI impI)
  show "compute_is_flagged default_pipeline p s = (p \<ge> 0.5 \<or> s \<ge> 70)"
    by (simp add: compute_is_flagged_def default_pipeline_def InferencePipeline_init_def)
  then show "generate_recommendation p s (compute_is_flagged default_pipeline p s) =
       (if \<not> (p \<ge> 0.5 \<or> s \<ge> 70) then ''APPROVE''
        else if p > 0.8 \<or> s > 90 then ''BLOCK''
        else if p > 0.6 \<or> s > 75 then ''REVIEW''
        else ''CHALLENGE'')"
    by (simp add: generate_recommendation_def)
next
  assume h: "fraud_threshold pl = 0.5 \<and> risk_score_threshold pl = 70
        \<and> process_transaction pl features rnd elapsed_ms now = Inr (r, pl')"
  then obtain fp preds where ep: "ensemble_predict (orchestrator pl) rnd = Inr (fp, preds)"
    by (auto simp: process_transaction_def split: sum.splits)
  let ?score = "calculate_risk_score fp features"
  from h ep have fr: "res_fraud_probability r = fp" and sc: "risk_score r = ?score"
    and fl: "is_flagged r = compute_is_flagged pl fp ?score"
    and re: "recommendation r = generate_recommendation fp ?score (compute_is_flagged pl fp ?score)"
    by (auto simp: process_transaction_def Let_def)
  from h have ft: "fraud_threshold pl = 0.5" and rt: "risk_score_threshold pl = 70"
    by blast+
  have cf: "compute_is_flagged pl fp ?score = (fp \<ge> 0.5 \<or> ?score \<ge> 70)"
    unfolding compute_is_flagged_def ft rt ..
  show "is_flagged r = (res_fraud_probability r \<ge> 0.5 \<or> risk_score r \<ge> 70)"
    by (simp add: fr sc fl cf)
  show "recommendation r = spec_recommendation (res_fraud_probability r) (risk_score r)"
    by (simp add: fr sc re cf generate_recommendation_def spec_recommendation_def)
qed

theorem recommendation_follows_precedence_witness:
  "fraud_threshold sample_pipeline = 0.5 \<and> risk_score_threshold sample_pipeline = 70
   \<and> (\<exists>r pl'. process_transaction sample_pipeline sample_transaction (draws_of [0.8, 0.9]) 1 [] =
         Inr (r, pl')
       \<and> res_fraud_probability r = 0.85 \<and> risk_score r = 64
       \<and> recommendation r = spec_recommendation 0.85 64
       \<and> recommendation r = ''BLOCK'')"
proof -
  have t: "fraud_threshold sample_pipeline = 0.5 \<and> risk_score_threshold sample_pipeline = 70"
    by (simp add: sample_pipeline_def default_pipeline_def InferencePipeline_init_def)
  from sample_pipeline_result obtain r pl' where p:
    "process_transaction sample_pipeline sample_transaction (draws_of [0.8, 0.9]) 1 [] = Inr (r, pl')"
    "res_fraud_probability r = 0.85" "risk_score r = 64"
    by blast
  from recommendation_follows_precedence
         [of "0.85" 64 sample_pipeline sample_transaction "draws_of [0.8, 0.9]" 1 "[]" r pl'] t p
  have "recommendation r = spec_recommendation 0.85 64"
    by simp
  moreover have "spec_recommendation 0.85 64 = ''BLOCK''"
    by (simp add: spec_recommendation_def)
  ultimately show ?thesis using t p by auto
qed

text \<open>
  C8. The decision policy is monotonic in the risk score: for every fixed fraud
  probability and every pair of thresholds, if the recommendation at the lower score is
  BLOCK then the recommendation at the higher score is BLOCK as well.
\<close>

theorem block_is_kept_when_score_rises:
  assumes "s1 \<le> s2"
    and "generate_recommendation p s1 (compute_is_flagged pl p s1) = ''BLOCK''"
  shows "generate_recommendation p s2 (compute_is_flagged pl p s2) = ''BLOCK''"
proof -
  from assms(2) have fl: "compute_is_flagged pl p s1" and hi: "p > 0.8 \<or> s1 > 90"
    by (auto simp: generate_recommendation_def split: if_splits)
  from fl assms(1) have "compute_is_flagged pl p s2"
    by (auto simp: compute_is_flagged_def)
  moreover from hi assms(1) have "p > 0.8 \<or> s2 > 90"
    by auto
  ultimately show ?thesis
    by (simp add: generate_recommendation_def)
qed

theorem block_is_kept_when_score_rises_witness:
  "(91::real) \<le> 95
   \<and> generate_recommendation 0.3 91 (compute_is_flagged default_pipeline 0.3 91) = ''BLOCK''
   \<and> generate_recommendation 0.3 95 (compute_is_flagged default_pipeline 0.3 95) = ''BLOCK''"
proof -
  have a: "(91::real) \<le> 95" by simp
  have b: "generate_recommendation 0.3 91 (compute_is_flagged default_pipeline 0.3 91) = ''BLOCK''"
    by (simp add: generate_recommendation_def compute_is_flagged_def default_pipeline_def
          InferencePipeline_init_def)
  from block_is_kept_when_score_rises [OF a b] a b show ?thesis by blast
qed

section \<open>The claims about the risk score\<close>

lemma sample_location_matches: "matches_suspicious_keyword sample_env ''unknown''"
  by (simp add: matches_suspicious_keyword_def suspicious_keywords_def sample_env_def
        ascii_lower_char_def)

text \<open>
  C3, as amended. For every transaction, the risk score is the clamp to 0..100 of
  base times 0.5 plus amount risk times 0.2 plus location risk times 0.2 plus time risk
  times 0.1, where base is the ensemble probability times 100, the amount risk is the
  tiered step function (above 10000: 80, above 5000: 60, above 1000: 30, else 10), the
  location risk is the constant 20 for every location and the time risk is the constant
  15 for every transaction time.
\<close>

theorem risk_score_formula:
  "calculate_risk_score p features =
     spec_clamp (p * 100 * 0.5 + spec_amount_tier (transaction_amount features) * 0.2
                 + 20 * 0.2 + 15 * 0.1) 0 100
   \<and> assess_amount_risk (transaction_amount features) =
       spec_amount_tier (transaction_amount features)
   \<and> assess_location_risk (user_location features) = 20
   \<and> assess_time_risk (transaction_time features) = 15
   \<and> 0 \<le> calculate_risk_score p features \<and> calculate_risk_score p features \<le> 100"
  by (simp add: calculate_risk_score_def assess_amount_risk_def assess_location_risk_def
        assess_time_risk_def spec_clamp_def spec_amount_tier_def Let_def min_def max_def)

text \<open>
  C3 as the specification words it fails: the location "unknown" matches the
  repository's suspicious keywords, yet its location risk is 20, and the risk score of
  the sample transaction at probability 0.85 is 64, not the value the formula gives with
  a location risk of 80.
\<close>

theorem suspicious_location_scores_twenty:
  "matches_suspicious_keyword sample_env (user_location sample_transaction)
   \<and> assess_location_risk (user_location sample_transaction) = 20
   \<and> calculate_risk_score 0.85 sample_transaction = 64
   \<and> calculate_risk_score 0.85 sample_transaction \<noteq>
       spec_clamp (0.85 * 100 * 0.5 + spec_amount_tier (transaction_amount sample_transaction) * 0.2
                   + 80 * 0.2 + assess_time_risk (transaction_time sample_transaction) * 0.1) 0 100"
proof -
  have "user_location sample_transaction = ''unknown''"
    by (simp add: sample_transaction_def)
  then have a: "matches_suspicious_keyword sample_env (user_location sample_transaction)"
    by (simp only: sample_location_matches)
  have b: "assess_location_risk (user_location sample_transaction) = 20"
    by (simp add: assess_location_risk_def)
  have c: "calculate_risk_score 0.85 sample_transaction = 64"
    by (simp add: calculate_risk_score_def assess_amount_risk_def assess_location_risk_def
          assess_time_risk_def sample_transaction_def Let_def)
  have d: "spec_clamp (0.85 * 100 * 0.5 + spec_amount_tier (transaction_amount sample_transaction) * 0.2
                   + 80 * 0.2 + assess_time_risk (transaction_time sample_transaction) * 0.1) 0 100 = 76"
    by (simp add: spec_clamp_def spec_amount_tier_def assess_time_risk_def sample_transaction_def)
  show ?thesis
    unfolding d using a b c by simp
qed

text \<open>
  C7, as amended. For a transaction of amount 75000 scored at the thresholds 0.5 and 70
  with exactly two active entries of weight 1 whose models return 0.8 and 0.9, whatever
  its location and time: the ensemble probability is 0.85, the risk score is 64, the
  tier of \<open>get_risk_level\<close> is high/orange, the transaction is flagged and the
  recommendation is BLOCK.
\<close>

theorem scenario_two_models:
  assumes "active_models (orchestrator pl) = [a, b]"
    and "models (orchestrator pl) a = Some ma" and "models (orchestrator pl) b = Some mb"
    and "model_weights (orchestrator pl) a = Some 1"
    and "model_weights (orchestrator pl) b = Some 1"
    and "rnd 0 = 0.8" and "rnd 1 = 0.9"
    and "fraud_threshold pl = 0.5" and "risk_score_threshold pl = 70"
    and "transaction_amount features = 75000"
  shows "\<exists>r pl'. process_transaction pl features rnd elapsed_ms now = Inr (r, pl')
           \<and> res_fraud_probability r = 0.85
           \<and> risk_score r = 64
           \<and> get_risk_level (risk_score r) = (label_high, ''orange'')
           \<and> is_flagged r
           \<and> recommendation r = ''BLOCK''"
proof -
  let ?preds = "\<lparr>ensemble_fraud_probability = 0.85,
      individual_predictions =
        [individual_prediction \<lparr>pr_model_id = a, pr_model_type = model_type ma,
                                fraud_probability = 0.8, confidence_score = accuracy ma\<rparr>,
         individual_prediction \<lparr>pr_model_id = b, pr_model_type = model_type mb,
                                fraud_probability = 0.9, confidence_score = accuracy mb\<rparr>],
      model_count = 2\<rparr>"
  from assms(7) have r1: "rnd (Suc 0) = 0.9"
    by simp
  have ep: "ensemble_predict (orchestrator pl) rnd = Inr (0.85, ?preds)"
    by (simp add: ensemble_predict_def assms(1-6) r1 predict_with_model_def Let_def)
  have sc: "calculate_risk_score 0.85 features = 64"
    by (simp add: calculate_risk_score_def assess_amount_risk_def assess_location_risk_def
          assess_time_risk_def assms(10) Let_def)
  have fl: "compute_is_flagged pl 0.85 64"
    by (simp add: compute_is_flagged_def assms(8,9))
  have re: "generate_recommendation 0.85 64 True = ''BLOCK''"
    by (simp add: generate_recommendation_def)
  have ti: "get_risk_level 64 = (label_high, ''orange'')"
    by (simp add: get_risk_level_def)
  show ?thesis
    unfolding process_transaction_def ep
    using sc fl re ti by (simp add: Let_def)
qed

theorem scenario_two_models_witness:
  "active_models (orchestrator sample_pipeline) = [''rf_v1'', ''gb_v1'']
   \<and> model_weights (orchestrator sample_pipeline) ''rf_v1'' = Some 1
   \<and> model_weights (orchestrator sample_pipeline) ''gb_v1'' = Some 1
   \<and> draws_of [0.8, 0.9] 0 = 0.8 \<and> draws_of [0.8, 0.9] 1 = 0.9
   \<and> fraud_threshold sample_pipeline = 0.5 \<and> risk_score_threshold sample_pipeline = 70
   \<and> transaction_amount sample_transaction = 75000
   \<and> (\<exists>r pl'. process_transaction sample_pipeline sample_transaction (draws_of [0.8, 0.9]) 1 [] =
          Inr (r, pl')
        \<and> risk_score r = 64 \<and> recommendation r = ''BLOCK'')"
proof -
  have a: "active_models (orchestrator sample_pipeline) = [''rf_v1'', ''gb_v1'']"
    by (simp add: sample_pipeline_def sample_active_two)
  have m1: "models (orchestrator sample_pipeline) ''rf_v1'' = Some rf_v1"
    by (simp add: sample_pipeline_def run_ops_def register_model_def init_orchestrator_def
          rf_v1_def gb_v1_def Let_def)
  have m2: "models (orchestrator sample_pipeline) ''gb_v1'' = Some gb_v1"
    by (simp add: sample_pipeline_def run_ops_def register_model_def init_orchestrator_def
          rf_v1_def gb_v1_def Let_def)
  have w1: "model_weights (orchestrator sample_pipeline) ''rf_v1'' = Some 1"
    by (simp add: sample_pipeline_def run_ops_def register_model_def init_orchestrator_def
          rf_v1_def gb_v1_def Let_def)
  have w2: "model_weights (orchestrator sample_pipeline) ''gb_v1'' = Some 1"
    by (simp add: sample_pipeline_def run_ops_def register_model_def init_orchestrator_def
          rf_v1_def gb_v1_def Let_def)
  have d0: "draws_of [0.8, 0.9] 0 = 0.8" and d1: "draws_of [0.8, 0.9] 1 = 0.9"
    by (simp_all add: draws_of_def)
  have ft: "fraud_threshold sample_pipeline = 0.5" and rt: "risk_score_threshold sample_pipeline = 70"
    by (simp_all add: sample_pipeline_def default_pipeline_def InferencePipeline_init_def)
  have am: "transaction_amount sample_transaction = 75000"
    by (simp add: sample_transaction_def)
  from scenario_two_models [OF a m1 m2 w1 w2 d0 d1 ft rt am, of 1 "[]"]
  show ?thesis using a w1 w2 d0 d1 ft rt am by blast
qed

text \<open>
  C7 as the specification words it fails at the risk score and the tier: the scenario
  scores 64, which is below 80, and 64 is in the tier high/orange, not very-high/red.
\<close>

theorem scenario_scores_sixty_four:
  "map_sum id (risk_score \<circ> fst)
     (process_transaction sample_pipeline sample_transaction (draws_of [0.8, 0.9]) 1 []) = Inr 64
   \<and> \<not> (80::real) \<le> 64
   \<and> get_risk_level 64 = (label_high, ''orange'')
   \<and> snd (get_risk_level 64) \<noteq> ''red''"
proof -
  from sample_pipeline_result obtain r pl' where p:
    "process_transaction sample_pipeline sample_transaction (draws_of [0.8, 0.9]) 1 [] = Inr (r, pl')"
    "risk_score r = 64"
    by blast
  have ti: "get_risk_level 64 = (label_high, ''orange'')"
    by (simp add: get_risk_level_def)
  have sc: "map_sum id (risk_score \<circ> fst)
      (process_transaction sample_pipeline sample_transaction (draws_of [0.8, 0.9]) 1 []) = Inr 64"
    unfolding p(1) by (simp add: p(2))
  show ?thesis
    using sc ti by simp
qed

section \<open>The claim about the feature mapping\<close>

















end
